theory Spec2Isabelle
  imports Main "HOL-Library.Multiset" "HOL-Library.AList"
begin

section \<open>Values, dictionaries and errors\<close>

text \<open>
  The Python values that node attributes, interaction parameters and metadata hold.
  \<open>bool\<close> is a subclass of \<open>int\<close> in Python (\<open>True == 1\<close>), so \<open>True\<close> and \<open>False\<close> are
  \<open>VInt 1\<close> and \<open>VInt 0\<close>. Floating point numbers are not modelled. \<open>VDict\<close> keeps the
  insertion order of a dictionary; \<open>VGraph\<close> stands for a graph object held as a value
  (the sub-graph that \<open>do_mapping\<close> stores on a node), given by its node ids.
\<close>

datatype val =
    VNone
  | VInt int
  | VStr string
  | VList "val list"
  | VDict "(val \<times> val) list"
  | VGraph "int list"

text \<open>A dictionary with string keys, in insertion order; \<open>map_of\<close> is the lookup.\<close>

type_synonym attrs = "(string \<times> val) list"

datatype error = ValueError | KeyError | TypeError | RecursionError | AttributeError

text \<open>\<open>d.get(key)\<close> and \<open>d.get(key, default)\<close>.\<close>

definition dict_get :: "attrs \<Rightarrow> string \<Rightarrow> val" where
  "dict_get d key = (case map_of d key of None \<Rightarrow> VNone | Some v \<Rightarrow> v)"

definition dict_get_default :: "attrs \<Rightarrow> string \<Rightarrow> val \<Rightarrow> val" where
  "dict_get_default d key dflt = (case map_of d key of None \<Rightarrow> dflt | Some v \<Rightarrow> v)"

text \<open>Truth value of a Python object, as \<open>if x:\<close> tests it.\<close>

fun truthy :: "val \<Rightarrow> bool" where
  "truthy VNone = False"
| "truthy (VInt i) = (i \<noteq> 0)"
| "truthy (VStr s) = (s \<noteq> [])"
| "truthy (VList l) = (l \<noteq> [])"
| "truthy (VDict d) = (d \<noteq> [])"
| "truthy (VGraph ns) = (ns \<noteq> [])"

text \<open>\<open>x + n\<close> for an integer \<open>n\<close>: every other operand type of the model raises TypeError.\<close>

fun py_add_int :: "val \<Rightarrow> int \<Rightarrow> error + int" where
  "py_add_int (VInt i) n = Inr (i + n)"
| "py_add_int _ n = Inl TypeError"

text \<open>\<open>max(xs)\<close>: ValueError on an empty sequence.\<close>

fun py_max :: "int list \<Rightarrow> error + int" where
  "py_max [] = Inl ValueError"
| "py_max (x # xs) = Inr (fold max xs x)"

section \<open>Attribute predicates and \<open>attributes_match\<close> (molecule.py)\<close>

text \<open>
  \<open>LinkPredicate\<close> has two implementations of \<open>match(node, key)\<close>:
  \<open>Choice\<close> (\<open>node.get(key) in self.value\<close>) and
  \<open>NotDefinedOrNot\<close> (\<open>key not in node or node[key] != self.value\<close>).
\<close>

datatype link_predicate = Choice "val list" | NotDefinedOrNot val

fun link_match :: "link_predicate \<Rightarrow> attrs \<Rightarrow> string \<Rightarrow> bool" where
  "link_match (Choice vs) node key = (dict_get node key \<in> set vs)"
| "link_match (NotDefinedOrNot v) node key =
     (case map_of node key of None \<Rightarrow> True | Some w \<Rightarrow> w \<noteq> v)"

text \<open>A value of a template's attribute dictionary: a plain value or a predicate object.\<close>

datatype tval = Plain val | Pred link_predicate

text \<open>
  \<open>attributes_match(attributes, template_attributes, ignore_keys)\<close>: the loop over
  \<open>template_attributes.items()\<close>, with \<open>continue\<close> and the two \<open>return False\<close>.
\<close>

fun attributes_match :: "attrs \<Rightarrow> (string \<times> tval) list \<Rightarrow> string list \<Rightarrow> bool" where
  "attributes_match attributes [] ignore_keys = True"
| "attributes_match attributes ((attr, value) # rest) ignore_keys =
     (if attr \<in> set ignore_keys then attributes_match attributes rest ignore_keys
      else (case value of
          Pred p \<Rightarrow>
            (if \<not> link_match p attributes attr then False
             else attributes_match attributes rest ignore_keys)
        | Plain v \<Rightarrow>
            (if dict_get attributes attr \<noteq> v then False
             else attributes_match attributes rest ignore_keys)))"

text \<open>What one item of the template asks of \<open>attributes\<close>.\<close>

fun constraint_holds :: "attrs \<Rightarrow> string \<Rightarrow> tval \<Rightarrow> bool" where
  "constraint_holds attributes attr (Pred p) = link_match p attributes attr"
| "constraint_holds attributes attr (Plain v) = (dict_get attributes attr = v)"

section \<open>Graphs, interactions, molecules and blocks (molecule.py)\<close>

text \<open>
  \<open>Interaction = namedtuple('Interaction', 'atoms parameters meta')\<close>. The atoms are
  node keys: integers in a Molecule, atom names in a Block.
\<close>

record 'n interaction =
  atoms :: "'n list"
  parameters :: val
  meta :: attrs

text \<open>
  What Molecule and Block share: they are \<open>networkx.Graph\<close>s whose node dictionary is
  ordered, with a dictionary of interaction lists by type name. An edge is kept once, as
  the pair it was added with; it is undirected, so \<open>(u, v)\<close> and \<open>(v, u)\<close> are the same
  edge. The order of \<open>edges\<close> is the order of insertion, which is not the order in which
  networkx iterates; only the set matters below.
\<close>

record 'n graph =
  nodes :: "('n \<times> attrs) list"
  edges :: "('n \<times> 'n) list"
  interactions :: "(string \<times> 'n interaction list) list"

text \<open>
  A force field is compared by object identity (\<open>ForceField\<close> defines no \<open>__eq__\<close>), so it
  is a number standing for the object; \<open>None\<close> when the molecule has none.
\<close>

record molecule = "int graph" +
  mol_meta :: attrs
  force_field :: "nat option"
  nrexcl :: "int option"

record block = "string graph" +
  name :: "string option"

definition has_node :: "('n, 'm) graph_scheme \<Rightarrow> 'n \<Rightarrow> bool" where
  "has_node g n = (n \<in> set (map fst (nodes g)))"

definition has_edge :: "('n, 'm) graph_scheme \<Rightarrow> 'n \<Rightarrow> 'n \<Rightarrow> bool" where
  "has_edge g u v = ((u, v) \<in> set (edges g) \<or> (v, u) \<in> set (edges g))"

text \<open>\<open>d.update(other)\<close>.\<close>

definition dict_update :: "attrs \<Rightarrow> attrs \<Rightarrow> attrs" where
  "dict_update d other = fold (\<lambda>(k, v) acc. AList.update k v acc) other d"

text \<open>
  \<open>Graph.add_node(n, **attr)\<close>: a new node is appended with its attributes, an existing
  one has its attribute dictionary updated.
\<close>

definition add_node :: "('n, 'm) graph_scheme \<Rightarrow> 'n \<Rightarrow> attrs \<Rightarrow> ('n, 'm) graph_scheme" where
  "add_node g n attr =
     (case map_of (nodes g) n of
        None \<Rightarrow> g\<lparr>nodes := nodes g @ [(n, dict_update [] attr)]\<rparr>
      | Some old \<Rightarrow> g\<lparr>nodes := AList.update n (dict_update old attr) (nodes g)\<rparr>)"

text \<open>
  \<open>Graph.add_edge(u, v)\<close>: both ends become nodes when they are not yet, then the edge is
  added unless it is there already.
\<close>

definition add_edge :: "('n, 'm) graph_scheme \<Rightarrow> 'n \<Rightarrow> 'n \<Rightarrow> ('n, 'm) graph_scheme" where
  "add_edge g u v =
     (let g1 = (if has_node g u then g else g\<lparr>nodes := nodes g @ [(u, [])]\<rparr>);
          g2 = (if has_node g1 v then g1 else g1\<lparr>nodes := nodes g1 @ [(v, [])]\<rparr>)
      in if has_edge g2 u v then g2 else g2\<lparr>edges := edges g2 @ [(u, v)]\<rparr>)"

text \<open>\<open>Graph.add_edges_from(pairs)\<close>.\<close>

definition add_edges_from :: "('n, 'm) graph_scheme \<Rightarrow> ('n \<times> 'n) list \<Rightarrow> ('n, 'm) graph_scheme" where
  "add_edges_from g pairs = fold (\<lambda>(u, v) acc. add_edge acc u v) pairs g"

text \<open>
  \<open>self.interactions[itype].append(x)\<close> on the \<open>defaultdict(list)\<close> of a Molecule: a type
  seen for the first time gets a new list at the end of the dictionary.
\<close>

definition interactions_append ::
  "(string \<times> 'n interaction list) list \<Rightarrow> string \<Rightarrow> 'n interaction \<Rightarrow> (string \<times> 'n interaction list) list" where
  "interactions_append ints itype x =
     (case map_of ints itype of
        None \<Rightarrow> ints @ [(itype, [x])]
      | Some l \<Rightarrow> AList.update itype (l @ [x]) ints)"

text \<open>
  \<open>Molecule.add_interaction(itype, atoms, parameters, meta=None)\<close>. Every operation
  that changes a molecule returns the molecule as it is left, with the outcome: a raise
  that comes after a change keeps the change.
\<close>

definition add_interaction ::
  "molecule \<Rightarrow> string \<Rightarrow> int list \<Rightarrow> val \<Rightarrow> attrs option \<Rightarrow> molecule \<times> (error + unit)" where
  "add_interaction self itype atms params meta_arg =
     (let m = (case meta_arg of None \<Rightarrow> [] | Some d \<Rightarrow> d) in
      if list_ex (\<lambda>atom. \<not> has_node self atom) atms then (self, Inl ValueError)
      else (self\<lparr>interactions := interactions_append (interactions self) itype
                    \<lparr>atoms = atms, parameters = params, meta = m\<rparr>\<rparr>, Inr ()))"

text \<open>The invariant of the data model: every atom of a stored interaction is a node.\<close>

definition interactions_closed :: "molecule \<Rightarrow> bool" where
  "interactions_closed self =
     list_all (\<lambda>(itype, l). list_all (\<lambda>i. list_all (has_node self) (atoms i)) l) (interactions self)"

text \<open>
  \<open>self.interactions[itype]\<close> on the \<open>defaultdict(list)\<close>: the list of the type, and the
  dictionary as the access leaves it (a missing key is created with an empty list).
\<close>

definition interactions_getitem ::
  "(string \<times> 'n interaction list) list \<Rightarrow> string \<Rightarrow>
     (string \<times> 'n interaction list) list \<times> 'n interaction list" where
  "interactions_getitem ints itype =
     (case map_of ints itype of None \<Rightarrow> (ints @ [(itype, [])], []) | Some l \<Rightarrow> (ints, l))"

text \<open>A \<open>for idx, x in enumerate(xs): if P(x): break\<close> search: the index it stops at.\<close>

fun find_index_opt :: "('a \<Rightarrow> bool) \<Rightarrow> 'a list \<Rightarrow> nat option" where
  "find_index_opt P [] = None"
| "find_index_opt P (x # xs) =
     (if P x then Some 0 else map_option Suc (find_index_opt P xs))"

text \<open>\<open>del xs[idx]\<close> for an index in range.\<close>

definition delete_at :: "nat \<Rightarrow> 'a list \<Rightarrow> 'a list" where
  "delete_at idx xs = take idx xs @ drop (Suc idx) xs"

text \<open>
  \<open>Molecule.remove_interaction(itype, atoms, version=0)\<close>. The test of the loop is
  \<open>interaction.atoms == atoms and interaction.meta.get('version', 0)\<close>: the second
  operand is the stored version itself, taken as a truth value; \<open>version\<close> is only used in
  the message of the KeyError.
\<close>

definition remove_interaction ::
  "molecule \<Rightarrow> string \<Rightarrow> int list \<Rightarrow> val \<Rightarrow> molecule \<times> (error + unit)" where
  "remove_interaction self itype atms version =
     (case interactions_getitem (interactions self) itype of
        (ints, l) \<Rightarrow>
          (case find_index_opt
                  (\<lambda>interaction. atoms interaction = atms \<and>
                     truthy (dict_get_default (meta interaction) ''version'' (VInt 0))) l of
             None \<Rightarrow> (self\<lparr>interactions := ints\<rparr>, Inl KeyError)
           | Some idx \<Rightarrow>
               (self\<lparr>interactions := AList.update itype (delete_at idx l) ints\<rparr>, Inr ())))"

subsection \<open>\<open>Molecule.merge_molecule\<close>\<close>

text \<open>
  The offsets: \<open>(offset, residue_offset, offset_charge_group)\<close>. For a molecule with
  nodes they come from the node with the largest id; its \<open>resid\<close> must be there (KeyError)
  and be a number (TypeError).
\<close>

definition merge_offsets :: "molecule \<Rightarrow> error + int \<times> int \<times> int" where
  "merge_offsets self =
     (if nodes self \<noteq> [] then
        (case py_max (map fst (nodes self)) of
           Inl e \<Rightarrow> Inl e
         | Inr last_node_idx \<Rightarrow>
             (case map_of (nodes self) last_node_idx of
                None \<Rightarrow> Inl KeyError
              | Some node \<Rightarrow>
                  (case map_of node ''resid'' of
                     None \<Rightarrow> Inl KeyError
                   | Some r \<Rightarrow>
                       (case py_add_int r 1 of
                          Inl e \<Rightarrow> Inl e
                        | Inr residue_offset \<Rightarrow>
                            (case py_add_int (dict_get_default node ''charge_group'' (VInt (- 1))) 1 of
                               Inl e \<Rightarrow> Inl e
                             | Inr offset_charge_group \<Rightarrow>
                                 Inr (last_node_idx + 1, residue_offset, offset_charge_group))))))
      else Inr (0, 0, 0))"

text \<open>
  The loop \<open>for idx, node in enumerate(molecule.nodes(), start=offset)\<close>: it fills
  \<open>correspondence\<close> and adds one node per step; a node of the other molecule without a
  numeric \<open>resid\<close> stops it, with the nodes added so far left in \<open>self\<close>.
\<close>

fun merge_nodes ::
  "molecule \<Rightarrow> int \<Rightarrow> int \<Rightarrow> int \<Rightarrow> (int \<times> attrs) list \<Rightarrow> (int \<times> int) list \<Rightarrow>
     molecule \<times> (error + (int \<times> int) list)" where
  "merge_nodes self idx residue_offset offset_charge_group [] correspondence =
     (self, Inr correspondence)"
| "merge_nodes self idx residue_offset offset_charge_group ((node, attr) # rest) correspondence =
     (case map_of attr ''resid'' of
        None \<Rightarrow> (self, Inl KeyError)
      | Some r \<Rightarrow>
          (case py_add_int r residue_offset of
             Inl e \<Rightarrow> (self, Inl e)
           | Inr resid \<Rightarrow>
               (case py_add_int (dict_get_default attr ''charge_group'' (VInt 0)) offset_charge_group of
                  Inl e \<Rightarrow> (self, Inl e)
                | Inr charge_group \<Rightarrow>
                    merge_nodes
                      (add_node self idx
                         (AList.update ''charge_group'' (VInt charge_group)
                            (AList.update ''resid'' (VInt resid) attr)))
                      (idx + 1) residue_offset offset_charge_group rest
                      (AList.update node idx correspondence))))"

text \<open>\<open>tuple(correspondence[atom] for atom in interaction.atoms)\<close>.\<close>

fun lookup_all :: "(int \<times> int) list \<Rightarrow> int list \<Rightarrow> error + int list" where
  "lookup_all c [] = Inr []"
| "lookup_all c (a # rest) =
     (case map_of c a of
        None \<Rightarrow> Inl KeyError
      | Some b \<Rightarrow> (case lookup_all c rest of Inl e \<Rightarrow> Inl e | Inr bs \<Rightarrow> Inr (b # bs)))"

text \<open>The inner and the outer loop over \<open>molecule.interactions.items()\<close>.\<close>

fun merge_interaction_list ::
  "molecule \<Rightarrow> (int \<times> int) list \<Rightarrow> string \<Rightarrow> int interaction list \<Rightarrow> molecule \<times> (error + unit)" where
  "merge_interaction_list self c nm [] = (self, Inr ())"
| "merge_interaction_list self c nm (interaction # rest) =
     (case lookup_all c (atoms interaction) of
        Inl e \<Rightarrow> (self, Inl e)
      | Inr atms \<Rightarrow>
          (case add_interaction self nm atms (parameters interaction) (Some (meta interaction)) of
             (self', Inl e) \<Rightarrow> (self', Inl e)
           | (self', Inr u) \<Rightarrow> merge_interaction_list self' c nm rest))"

fun merge_interactions ::
  "molecule \<Rightarrow> (int \<times> int) list \<Rightarrow> (string \<times> int interaction list) list \<Rightarrow>
     molecule \<times> (error + unit)" where
  "merge_interactions self c [] = (self, Inr ())"
| "merge_interactions self c ((nm, l) # rest) =
     (case merge_interaction_list self c nm l of
        (self', Inl e) \<Rightarrow> (self', Inl e)
      | (self', Inr u) \<Rightarrow> merge_interactions self' c rest)"

text \<open>The loop over \<open>molecule.edges\<close>.\<close>

fun merge_edges ::
  "molecule \<Rightarrow> (int \<times> int) list \<Rightarrow> (int \<times> int) list \<Rightarrow> molecule \<times> (error + unit)" where
  "merge_edges self c [] = (self, Inr ())"
| "merge_edges self c ((u, v) # rest) =
     (case map_of c u of
        None \<Rightarrow> (self, Inl KeyError)
      | Some u' \<Rightarrow>
          (case map_of c v of
             None \<Rightarrow> (self, Inl KeyError)
           | Some v' \<Rightarrow> merge_edges (add_edge self u' v') c rest))"

text \<open>
  \<open>Molecule.merge_molecule(molecule)\<close>, for another molecule that is not \<open>self\<close> itself.
  The second component is the outcome: the error raised, or the value returned. The body
  builds \<open>correspondence\<close> and ends after the loop over the edges without a \<open>return\<close>
  statement, so the value the caller receives is \<open>None\<close>.
\<close>

definition merge_molecule ::
  "molecule \<Rightarrow> molecule \<Rightarrow> molecule \<times> (error + (int \<times> int) list option)" where
  "merge_molecule self other =
     (if force_field self \<noteq> force_field other then (self, Inl ValueError)
      else if nrexcl self \<noteq> nrexcl other then (self, Inl ValueError)
      else
        (case merge_offsets self of
           Inl e \<Rightarrow> (self, Inl e)
         | Inr (offset, residue_offset, offset_charge_group) \<Rightarrow>
             (case merge_nodes self offset residue_offset offset_charge_group (nodes other) [] of
                (self1, Inl e) \<Rightarrow> (self1, Inl e)
              | (self1, Inr correspondence) \<Rightarrow>
                  (case merge_interactions self1 correspondence (interactions other) of
                     (self2, Inl e) \<Rightarrow> (self2, Inl e)
                   | (self2, Inr u) \<Rightarrow>
                       (case merge_edges self2 correspondence (edges other) of
                          (self3, Inl e) \<Rightarrow> (self3, Inl e)
                        | (self3, Inr u') \<Rightarrow> (self3, Inr None))))))"

subsection \<open>\<open>Block.make_edges_from_interactions\<close>\<close>

text \<open>\<open>zip(atoms[:-1], atoms[1:])\<close>: the pairs of consecutive atoms.\<close>

definition consecutive_pairs :: "'a list \<Rightarrow> ('a \<times> 'a) list" where
  "consecutive_pairs xs = zip (butlast xs) (tl xs)"

text \<open>\<open>self.interactions.get(itype, [])\<close> on the plain dictionary of a Block.\<close>

definition interactions_get ::
  "(string \<times> 'n interaction list) list \<Rightarrow> string \<Rightarrow> 'n interaction list" where
  "interactions_get ints itype = (case map_of ints itype of None \<Rightarrow> [] | Some l \<Rightarrow> l)"

text \<open>\<open>interaction.meta.get('edge', True)\<close> as the condition of the \<open>if\<close>.\<close>

definition makes_edges :: "'n interaction \<Rightarrow> bool" where
  "makes_edges interaction = truthy (dict_get_default (meta interaction) ''edge'' (VInt 1))"

text \<open>\<open>Block.make_edges_from_interaction_type(itype)\<close>.\<close>

definition make_edges_from_interaction_type :: "block \<Rightarrow> string \<Rightarrow> block" where
  "make_edges_from_interaction_type self itype =
     fold (\<lambda>interaction acc.
             if makes_edges interaction
             then add_edges_from acc (consecutive_pairs (atoms interaction))
             else acc)
          (interactions_get (interactions self) itype) self"

definition known_types :: "string list" where
  "known_types = [''bonds'', ''angles'', ''dihedrals'', ''cmap'', ''constraints'']"

text \<open>\<open>Block.make_edges_from_interactions()\<close>.\<close>

definition make_edges_from_interactions :: "block \<Rightarrow> block" where
  "make_edges_from_interactions self =
     fold (\<lambda>itype acc. make_edges_from_interaction_type acc itype) known_types self"

text \<open>The edges of a graph as a set of undirected edges: \<open>{u, v}\<close> for \<open>(u, v)\<close>.\<close>

definition edge_set :: "('n, 'm) graph_scheme \<Rightarrow> 'n set set" where
  "edge_set g = (\<lambda>(u, v). {u, v}) ` set (edges g)"

text \<open>
  The ids that \<open>enumerate(molecule.nodes(), start=idx)\<close> gives to the nodes of the other
  molecule: the first node gets \<open>idx\<close>, the next one \<open>idx + 1\<close>, and so on, whatever the
  ids of the nodes were.
\<close>

fun new_ids :: "int \<Rightarrow> int list \<Rightarrow> (int \<times> int) list" where
  "new_ids idx [] = []"
| "new_ids idx (node # rest) = (node, idx) # new_ids (idx + 1) rest"

text \<open>\<open>max(self) + 1\<close> for a molecule with nodes, 0 for an empty one.\<close>

definition merge_offset :: "molecule \<Rightarrow> int" where
  "merge_offset self = (if nodes self = [] then 0 else Max (set (map fst (nodes self))) + 1)"

section \<open>The order in which \<open>do_mapping\<close> merges the matches (processors/do_mapping.py)\<close>









section \<open>Covering modification names with mapping templates (processors/do_mapping.py)\<close>





section \<open>Node attributes and removal at the end of \<open>do_mapping\<close> (processors/do_mapping.py)\<close>

text \<open>
  \<open>attrs_from_node(node, attrs_keep)\<close>. With a key \<open>replace\<close> in the node the source
  assigns \<open>node = node.copy().update(node['replace'])\<close>; \<open>dict.update\<close> returns \<open>None\<close>, so
  the \<open>node.items()\<close> that follows raises AttributeError.
\<close>

definition attrs_from_node :: "attrs \<Rightarrow> string list \<Rightarrow> error + attrs" where
  "attrs_from_node node attrs_keep =
     (case map_of node ''replace'' of
        Some r \<Rightarrow> Inl AttributeError
      | None \<Rightarrow> Inr (filter (\<lambda>(attr, val). attr \<in> set attrs_keep) node))"

text \<open>\<open>attrs[attr].append(val)\<close> on a \<open>defaultdict(list)\<close>.\<close>

definition append_value :: "(string \<times> val list) list \<Rightarrow> string \<Rightarrow> val \<Rightarrow> (string \<times> val list) list" where
  "append_value d attr v =
     (case map_of d attr of
        None \<Rightarrow> d @ [(attr, [v])]
      | Some l \<Rightarrow> AList.update attr (l @ [v]) d)"

text \<open>
  The loop \<open>for mol_idx in mol_idxs\<close> that collects, for every kept attribute, the values
  of the contributing atoms of the source molecule.
\<close>

fun collect_attrs ::
  "molecule \<Rightarrow> string list \<Rightarrow> int list \<Rightarrow> (string \<times> val list) list \<Rightarrow>
     error + (string \<times> val list) list" where
  "collect_attrs mol attribute_keep [] acc = Inr acc"
| "collect_attrs mol attribute_keep (mol_idx # rest) acc =
     (case map_of (nodes mol) mol_idx of
        None \<Rightarrow> Inl KeyError
      | Some node \<Rightarrow>
          (case attrs_from_node node attribute_keep of
             Inl e \<Rightarrow> Inl e
           | Inr new_attrs \<Rightarrow>
               collect_attrs mol attribute_keep rest
                 (fold (\<lambda>(attr, v) d. append_value d attr v) new_attrs acc)))"

text \<open>
  \<open>graph_out.nodes[out_idx].update(new)\<close>, and a sequence of assignments
  \<open>graph_out.nodes[out_idx][key] = value\<close>: KeyError when \<open>out_idx\<close> is not a node.
\<close>

definition update_node :: "molecule \<Rightarrow> int \<Rightarrow> attrs \<Rightarrow> error + molecule" where
  "update_node g out_idx new =
     (case map_of (nodes g) out_idx of
        None \<Rightarrow> Inl KeyError
      | Some old \<Rightarrow> Inr (g\<lparr>nodes := AList.update out_idx (dict_update old new) (nodes g)\<rparr>))"

text \<open>
  \<open>graph_out[out_idx]\<close> is the adjacency of the node: a dictionary from each neighbour to
  the data of the edge (edges carry no data in this model, so an empty dictionary).
\<close>

definition adjacency :: "molecule \<Rightarrow> int \<Rightarrow> (int \<times> attrs) list" where
  "adjacency g n =
     [(v, []). (u, v) \<leftarrow> edges g, u = n] @ [(u, []). (u, v) \<leftarrow> edges g, v = n, u \<noteq> n]"

text \<open>
  \<open>graph_out[out_idx].get(key, default)\<close>. The keys of the adjacency are node ids, which
  are integers in a molecule; the key looked up may also be a string.
\<close>

definition adjacency_get :: "molecule \<Rightarrow> int \<Rightarrow> int + string \<Rightarrow> val \<Rightarrow> val" where
  "adjacency_get g n key dflt =
     (case map_of (map (\<lambda>(v, d). (Inl v :: int + string, d)) (adjacency g n)) key of
        None \<Rightarrow> dflt
      | Some d \<Rightarrow> VDict (map (\<lambda>(k, x). (VStr k, x)) d))"

text \<open>
  The loop \<open>for out_idx in out_to_mol\<close> (lines 371 to 404). \<open>out_to_mol\<close> maps an output
  particle to the weights of the source atoms it comes from, \<open>all_references\<close> an output
  particle to its reference atom. The last statement of the body is
  \<open>if graph_out[out_idx].get('atomname', '') is None: to_remove.add(out_idx)\<close>.
\<close>

fun set_node_attributes ::
  "molecule \<Rightarrow> (int \<times> int) list \<Rightarrow> string list \<Rightarrow> (int \<times> (int \<times> val) list) list \<Rightarrow>
     molecule \<Rightarrow> int list \<Rightarrow> error + molecule \<times> int list" where
  "set_node_attributes mol all_references attribute_keep [] graph_out to_remove =
     Inr (graph_out, to_remove)"
| "set_node_attributes mol all_references attribute_keep ((out_idx, weights) # rest)
     graph_out to_remove =
     (let mol_idxs = map fst weights;
          subgraph = VGraph (filter (\<lambda>n. n \<in> set mol_idxs) (map fst (nodes mol)))
      in case update_node graph_out out_idx
                [(''graph'', subgraph),
                 (''mapping_weights'', VDict (map (\<lambda>(k, w). (VInt k, w)) weights))] of
           Inl e \<Rightarrow> Inl e
         | Inr g1 \<Rightarrow>
             (case (case map_of all_references out_idx of
                      Some ref_idx \<Rightarrow>
                        (case map_of (nodes mol) ref_idx of
                           None \<Rightarrow> Inl KeyError
                         | Some node \<Rightarrow> attrs_from_node node attribute_keep)
                    | None \<Rightarrow>
                        (case collect_attrs mol attribute_keep mol_idxs [] of
                           Inl e \<Rightarrow> Inl e
                         | Inr collected \<Rightarrow>
                             Inr (map (\<lambda>(attr, vals).
                                    (attr, case vals of [] \<Rightarrow> VNone | v # vs \<Rightarrow> v)) collected))) of
                Inl e \<Rightarrow> Inl e
              | Inr new_attrs \<Rightarrow>
                  (case update_node g1 out_idx new_attrs of
                     Inl e \<Rightarrow> Inl e
                   | Inr g2 \<Rightarrow>
                       set_node_attributes mol all_references attribute_keep rest g2
                         (if adjacency_get g2 out_idx (Inr ''atomname'') (VStr []) = VNone
                          then List.insert out_idx to_remove else to_remove))))"

text \<open>\<open>Graph.remove_nodes_from(nodes)\<close>: the nodes go, with the edges at them.\<close>

definition remove_nodes_from :: "molecule \<Rightarrow> int list \<Rightarrow> molecule" where
  "remove_nodes_from g ns =
     g\<lparr>nodes := filter (\<lambda>(n, a). n \<notin> set ns) (nodes g),
       edges := filter (\<lambda>(u, v). u \<notin> set ns \<and> v \<notin> set ns) (edges g)\<rparr>"

text \<open>
  The end of \<open>do_mapping\<close>, from the state the merging loop leaves: the loop over
  \<open>out_to_mol\<close> above with \<open>attribute_keep = ['chain'] + list(attribute_keep)\<close>, then
  \<open>graph_out.remove_nodes_from(to_remove)\<close> and \<open>return graph_out\<close>. Between the two the
  source adds edges between the matches and logs its diagnostics (lines 407 to 481);
  this changes neither the attributes of a node nor \<open>to_remove\<close> and is left out here.
\<close>

definition do_mapping_finish ::
  "molecule \<Rightarrow> molecule \<Rightarrow> (int \<times> (int \<times> val) list) list \<Rightarrow> (int \<times> int) list \<Rightarrow>
     string list \<Rightarrow> error + molecule" where
  "do_mapping_finish mol graph_out out_to_mol all_references attribute_keep =
     (case set_node_attributes mol all_references (''chain'' # attribute_keep) out_to_mol
             graph_out [] of
        Inl e \<Rightarrow> Inl e
      | Inr (g, to_remove) \<Rightarrow> Inr (remove_nodes_from g to_remove))"

section \<open>Example molecules\<close>

definition mol_a :: molecule where
  "mol_a = \<lparr>nodes = [(0, [(''atomname'', VStr ''BB''), (''resid'', VInt 1)])],
            edges = [], interactions = [],
            mol_meta = [], force_field = Some 0, nrexcl = Some 1\<rparr>"

definition mol_b :: molecule where
  "mol_b = \<lparr>nodes = [(5, [(''atomname'', VStr ''SC1''), (''resid'', VInt 1)]),
                     (7, [(''atomname'', VStr ''SC2''), (''resid'', VInt 1)])],
            edges = [(5, 7)],
            interactions = [(''bonds'', [\<lparr>atoms = [5, 7], parameters = VList [], meta = []\<rparr>])],
            mol_meta = [], force_field = Some 0, nrexcl = Some 1\<rparr>"

definition mol_c :: molecule where
  "mol_c = mol_b\<lparr>nrexcl := Some 3\<rparr>"

text \<open>A block with two atoms and an edge between them, and no interaction.\<close>

definition block_e :: block where
  "block_e = \<lparr>nodes = [(''BB'', [(''atomname'', VStr ''BB'')]), (''SC1'', [(''atomname'', VStr ''SC1'')])],
              edges = [(''BB'', ''SC1'')], interactions = [], name = Some ''ALA''\<rparr>"

text \<open>
  A block with three atoms: a bond and an angle that make edges, and a bond whose
  metadata has \<open>edge\<close> set to \<open>False\<close>.
\<close>

definition block_i :: block where
  "block_i = \<lparr>nodes = [(''A'', [(''atomname'', VStr ''A'')]), (''B'', [(''atomname'', VStr ''B'')]),
                       (''C'', [(''atomname'', VStr ''C'')])],
              edges = [],
              interactions =
                [(''bonds'', [\<lparr>atoms = [''A'', ''B''], parameters = VList [], meta = []\<rparr>,
                             \<lparr>atoms = [''A'', ''C''], parameters = VList [],
                               meta = [(''edge'', VInt 0)]\<rparr>]),
                 (''angles'', [\<lparr>atoms = [''A'', ''B'', ''C''], parameters = VList [], meta = []\<rparr>]),
                 (''impropers'', [\<lparr>atoms = [''C'', ''A''], parameters = VList [], meta = []\<rparr>])],
              name = Some ''GLY''\<rparr>"






text \<open>A molecule whose node ids are 0 and 1, as \<open>Block.to_molecule\<close> numbers them.\<close>

definition mol_d :: molecule where
  "mol_d = \<lparr>nodes = [(0, [(''atomname'', VStr ''SC1''), (''resid'', VInt 1)]),
                     (1, [(''atomname'', VStr ''SC2''), (''resid'', VInt 1)])],
            edges = [(0, 1)],
            interactions = [(''bonds'', [\<lparr>atoms = [0, 1], parameters = VList [], meta = []\<rparr>])],
            mol_meta = [], force_field = Some 0, nrexcl = Some 1\<rparr>"

text \<open>
  A source molecule of one atom that has no atom name (\<open>atomname\<close> is \<open>None\<close>), and the
  output graph after one modification match was merged: one output particle, made from
  the template atom \<open>P\<close>, that comes from the source atom 0 with weight 1. The target force
  field is the object 1.
\<close>

definition mol_src :: molecule where
  "mol_src = \<lparr>nodes = [(0, [(''atomname'', VNone), (''chain'', VStr ''A''),
                             (''modifications'', VList [VStr ''PHOS''])])],
              edges = [], interactions = [],
              mol_meta = [], force_field = Some 0, nrexcl = None\<rparr>"

definition graph_out_merged :: molecule where
  "graph_out_merged = \<lparr>nodes = [(0, [(''PTM_atom'', VInt 1), (''atomname'', VStr ''P'')])],
              edges = [], interactions = [],
              mol_meta = [], force_field = Some 1, nrexcl = None\<rparr>"

section \<open>Theorems\<close>

lemma attributes_match_iff:
  "attributes_match a t ign = list_all (\<lambda>(k, v). k \<in> set ign \<or> constraint_holds a k v) t"
proof (induction t)
  case Nil
  show ?case by simp
next
  case (Cons kv t)
  obtain k v where kv: "kv = (k, v)" by (cases kv)
  show ?case
    using Cons.IH by (cases v) (auto simp: kv)
qed

lemma constraint_holds_cong:
  "map_of a k = map_of a' k \<Longrightarrow> constraint_holds a k v = constraint_holds a' k v"
proof (cases v)
  case (Plain w)
  assume "map_of a k = map_of a' k"
  then show ?thesis by (simp add: Plain dict_get_def)
next
  case (Pred p)
  assume "map_of a k = map_of a' k"
  then show ?thesis by (cases p) (simp_all add: Pred dict_get_def)
qed

text \<open>
  C7. \<open>attributes_match\<close> is the conjunction, over the items of \<open>template_attributes\<close>
  whose key is not ignored, of what each item asks. So taking a key out of the template
  keeps a match a match, and two attribute dictionaries that agree on the non-ignored
  keys of the template give the same result: the other keys of \<open>attributes\<close> play no part.
\<close>

theorem attributes_match_conjunction:
  "(attributes_match a t ign \<longrightarrow> attributes_match a (AList.delete k t) ign) \<and>
   ((\<forall>key \<in> fst ` set t. key \<notin> set ign \<longrightarrow> map_of a key = map_of a' key) \<longrightarrow>
      attributes_match a t ign = attributes_match a' t ign) \<and>
   attributes_match a t ign =
     (\<forall>(key, value) \<in> set t. key \<notin> set ign \<longrightarrow> constraint_holds a key value)"
proof (intro conjI impI)
  assume "attributes_match a t ign"
  then show "attributes_match a (AList.delete k t) ign"
    by (auto simp: attributes_match_iff list_all_iff AList.delete_eq)
next
  assume agree: "\<forall>key \<in> fst ` set t. key \<notin> set ign \<longrightarrow> map_of a key = map_of a' key"
  have "(k' \<in> set ign \<or> constraint_holds a k' v) = (k' \<in> set ign \<or> constraint_holds a' k' v)"
    if "(k', v) \<in> set t" for k' v
  proof (cases "k' \<in> set ign")
    case True
    then show ?thesis by simp
  next
    case False
    from that have "k' \<in> fst ` set t" by force
    with agree False have "map_of a k' = map_of a' k'" by blast
    then have "constraint_holds a k' v = constraint_holds a' k' v"
      by (rule constraint_holds_cong)
    then show ?thesis by (simp only:)
  qed
  then have "list_all (\<lambda>(k, v). k \<in> set ign \<or> constraint_holds a k v) t =
      list_all (\<lambda>(k, v). k \<in> set ign \<or> constraint_holds a' k v) t"
    unfolding list_all_iff by (intro ball_cong) auto
  then show "attributes_match a t ign = attributes_match a' t ign"
    by (simp only: attributes_match_iff)
next
  show "attributes_match a t ign =
     (\<forall>(key, value) \<in> set t. key \<notin> set ign \<longrightarrow> constraint_holds a key value)"
    by (auto simp: attributes_match_iff list_all_iff)
qed

theorem attributes_match_conjunction_witness:
  "attributes_match [(''atomname'', VStr ''BB''), (''resid'', VInt 1)]
     [(''atomname'', Plain (VStr ''BB'')), (''resname'', Pred (NotDefinedOrNot (VStr ''GLY'')))]
     [''resid''] \<and>
   attributes_match [(''atomname'', VStr ''BB''), (''resid'', VInt 1)]
     (AList.delete ''atomname''
        [(''atomname'', Plain (VStr ''BB'')), (''resname'', Pred (NotDefinedOrNot (VStr ''GLY'')))])
     [''resid''] \<and>
   attributes_match [(''atomname'', VStr ''BB''), (''resid'', VInt 1), (''chain'', VStr ''A'')]
     [(''atomname'', Plain (VStr ''BB'')), (''resname'', Pred (NotDefinedOrNot (VStr ''GLY'')))]
     [''resid'']"
  using attributes_match_conjunction
    [of "[(''atomname'', VStr ''BB''), (''resid'', VInt 1)]"
        "[(''atomname'', Plain (VStr ''BB'')), (''resname'', Pred (NotDefinedOrNot (VStr ''GLY'')))]"
        "[''resid'']" "''atomname''"
        "[(''atomname'', VStr ''BB''), (''resid'', VInt 1), (''chain'', VStr ''A'')]"]
  by (simp add: dict_get_def)

subsection \<open>Interactions of a molecule\<close>

lemma set_alist_update_subset:
  "set (AList.update k v al) \<subseteq> insert (k, v) (set al)"
  by (induction al) auto

lemma interactions_closed_append:
  assumes "interactions_closed self" "list_all (has_node self) atms"
  shows "interactions_closed
     (self\<lparr>interactions := interactions_append (interactions self) t
        \<lparr>atoms = atms, parameters = p, meta = m\<rparr>\<rparr>)"
proof -
  have "list_all (\<lambda>i. list_all (has_node self) (atoms i)) l"
    if "(t', l) \<in> set (interactions_append (interactions self) t \<lparr>atoms = atms, parameters = p, meta = m\<rparr>)"
    for t' l
  proof (cases "map_of (interactions self) t")
    case None
    with that assms show ?thesis
      by (auto simp: interactions_append_def interactions_closed_def list_all_iff)
  next
    case (Some old)
    then have old: "(t, old) \<in> set (interactions self)" by (rule map_of_SomeD)
    from that Some have "(t', l) \<in> set (AList.update t (old @ [\<lparr>atoms = atms, parameters = p, meta = m\<rparr>]) (interactions self))"
      by (simp add: interactions_append_def)
    then have "(t', l) \<in> set (interactions self) \<or> l = old @ [\<lparr>atoms = atms, parameters = p, meta = m\<rparr>]"
      using set_alist_update_subset by fastforce
    moreover have "list_all (\<lambda>i. list_all (has_node self) (atoms i)) l'"
      if "(t'', l') \<in> set (interactions self)" for t'' l'
      using that assms(1) by (auto simp: interactions_closed_def list_all_iff)
    ultimately show ?thesis
      using assms(2) old by (auto simp: list_all_iff)
  qed
  then show ?thesis
    by (auto simp: interactions_closed_def list_all_iff has_node_def)
qed

text \<open>
  C10. \<open>add_interaction\<close> raises exactly when one of the atoms is not a node of the
  molecule. When it raises the molecule is as it was (the atoms are all checked before
  the interaction is appended), and a call that returns keeps the invariant that every
  atom of a stored interaction is a node.
\<close>

theorem add_interaction_raises_iff:
  "(snd (add_interaction self t atms p m) \<noteq> Inr () \<longleftrightarrow> (\<exists>atom \<in> set atms. \<not> has_node self atom)) \<and>
   (snd (add_interaction self t atms p m) \<noteq> Inr () \<longrightarrow> fst (add_interaction self t atms p m) = self) \<and>
   (snd (add_interaction self t atms p m) = Inr () \<and> interactions_closed self \<longrightarrow>
      interactions_closed (fst (add_interaction self t atms p m)))"
proof (cases "list_ex (\<lambda>atom. \<not> has_node self atom) atms")
  case True
  then show ?thesis by (auto simp: add_interaction_def Let_def list_ex_iff)
next
  case False
  then have all: "list_all (has_node self) atms" by (auto simp: list_ex_iff list_all_iff)
  have "interactions_closed self \<Longrightarrow> interactions_closed (fst (add_interaction self t atms p m))"
    using False interactions_closed_append [OF _ all] by (simp add: add_interaction_def Let_def)
  then show ?thesis using False by (auto simp: add_interaction_def Let_def list_ex_iff)
qed

theorem add_interaction_raises_iff_witness:
  "\<not> has_node mol_b 9 \<and>
   snd (add_interaction mol_b ''bonds'' [5, 9] (VList []) None) \<noteq> Inr () \<and>
   fst (add_interaction mol_b ''bonds'' [5, 9] (VList []) None) = mol_b \<and>
   interactions_closed mol_b \<and>
   snd (add_interaction mol_b ''bonds'' [7, 5] (VList []) None) = Inr () \<and>
   interactions_closed (fst (add_interaction mol_b ''bonds'' [7, 5] (VList []) None))"
proof -
  have closed: "interactions_closed mol_b"
    by (simp add: interactions_closed_def mol_b_def has_node_def)
  have absent: "\<not> has_node mol_b 9"
    by (simp add: mol_b_def has_node_def)
  have ok: "snd (add_interaction mol_b ''bonds'' [7, 5] (VList []) None) = Inr ()"
    by (simp add: add_interaction_def mol_b_def has_node_def)
  show ?thesis
    using closed absent ok
      add_interaction_raises_iff [of mol_b "''bonds''" "[5, 9]" "VList []" None]
      add_interaction_raises_iff [of mol_b "''bonds''" "[7, 5]" "VList []" None]
    by simp
qed

text \<open>
  C5 (the code at the failing input). \<open>mol_b\<close> holds one bond between the atoms 5 and 7,
  with no version in its metadata, that is version 0. Removing the bond between 5 and 7
  with the default \<open>version=0\<close> raises KeyError and leaves the bond in place: the stored
  version 0 is tested as a truth value and is false.
\<close>

theorem remove_interaction_default_version:
  "remove_interaction mol_b ''bonds'' [5, 7] (VInt 0) = (mol_b, Inl KeyError)"
  by (simp add: remove_interaction_def interactions_getitem_def dict_get_default_def mol_b_def)

subsection \<open>Merging molecules\<close>

text \<open>
  C9. A molecule with another force field or another \<open>nrexcl\<close> is refused with
  ValueError, and the receiver is the molecule it was before the call.
\<close>

theorem merge_molecule_mismatch:
  "force_field other \<noteq> force_field self \<or> nrexcl other \<noteq> nrexcl self \<Longrightarrow>
   merge_molecule self other = (self, Inl ValueError)"
  by (auto simp: merge_molecule_def)

theorem merge_molecule_mismatch_witness:
  "nrexcl mol_c \<noteq> nrexcl mol_a \<and> merge_molecule mol_a mol_c = (mol_a, Inl ValueError)"
  using merge_molecule_mismatch [of mol_c mol_a] by (simp add: mol_a_def mol_b_def mol_c_def)

lemma merge_molecule_value:
  "merge_molecule mol_a mol_b =
     (\<lparr>nodes = [(0, [(''atomname'', VStr ''BB''), (''resid'', VInt 1)]),
                (1, [(''atomname'', VStr ''SC1''), (''resid'', VInt 3), (''charge_group'', VInt 0)]),
                (2, [(''atomname'', VStr ''SC2''), (''resid'', VInt 3), (''charge_group'', VInt 0)])],
       edges = [(1, 2)],
       interactions = [(''bonds'', [\<lparr>atoms = [1, 2], parameters = VList [], meta = []\<rparr>])],
       mol_meta = [], force_field = Some 0, nrexcl = Some 1\<rparr>, Inr None)"
  by (simp add: merge_molecule_def mol_a_def mol_b_def merge_offsets_def add_node_def
      add_edge_def add_interaction_def has_node_def has_edge_def dict_update_def
      interactions_append_def dict_get_default_def)

text \<open>
  C1 (the code at the failing input). Merging \<open>mol_b\<close> into \<open>mol_a\<close> succeeds, and the value
  the call returns is \<open>None\<close>, not the dictionary from the ids of \<open>mol_b\<close> to the new ids.
\<close>

theorem merge_molecule_returns_None:
  "snd (merge_molecule mol_a mol_b) = Inr None"
  by (simp add: merge_molecule_value)

subsection \<open>Edges from the interactions of a block\<close>

lemma edges_add_edge:
  "edges (add_edge g u v) =
     (if (u, v) \<in> set (edges g) \<or> (v, u) \<in> set (edges g) then edges g
      else edges g @ [(u, v)])"
  by (simp add: add_edge_def Let_def has_edge_def)

lemma edge_set_add_edge: "edge_set (add_edge g u v) = insert {u, v} (edge_set g)"
proof (cases "(u, v) \<in> set (edges g) \<or> (v, u) \<in> set (edges g)")
  case True
  then have "{u, v} \<in> edge_set g"
  proof
    assume "(u, v) \<in> set (edges g)"
    then have "(\<lambda>(u, v). {u, v}) (u, v) \<in> edge_set g"
      unfolding edge_set_def by (rule imageI)
    then show ?thesis by simp
  next
    assume "(v, u) \<in> set (edges g)"
    then have "(\<lambda>(u, v). {u, v}) (v, u) \<in> edge_set g"
      unfolding edge_set_def by (rule imageI)
    moreover have "{v, u} = {u, v}" by (rule insert_commute)
    ultimately show ?thesis by simp
  qed
  then have "insert {u, v} (edge_set g) = edge_set g" by (rule insert_absorb)
  moreover have "edge_set (add_edge g u v) = edge_set g"
    using True by (simp add: edge_set_def edges_add_edge)
  ultimately show ?thesis by simp
next
  case False
  then show ?thesis
    by (simp add: edge_set_def edges_add_edge)
qed

lemma interactions_add_edge: "interactions (add_edge g u v) = interactions g"
  by (simp add: add_edge_def Let_def)

lemma edge_set_add_edges_from:
  "edge_set (add_edges_from g ps) = edge_set g \<union> (\<lambda>(u, v). {u, v}) ` set ps"
proof -
  have "edge_set (fold (\<lambda>(u, v) acc. add_edge acc u v) ps g) =
      edge_set g \<union> (\<lambda>(u, v). {u, v}) ` set ps" for g :: "('a, 'b) graph_scheme"
    by (induction ps arbitrary: g) (auto simp: edge_set_add_edge)
  then show ?thesis by (simp add: add_edges_from_def)
qed

lemma interactions_add_edges_from: "interactions (add_edges_from g ps) = interactions g"
proof -
  have "interactions (fold (\<lambda>(u, v) acc. add_edge acc u v) ps g) = interactions g"
    for g :: "('a, 'b) graph_scheme"
    by (induction ps arbitrary: g) (auto simp: interactions_add_edge)
  then show ?thesis by (simp add: add_edges_from_def)
qed

lemma fold_interaction_edges:
  "edge_set (fold (\<lambda>interaction acc.
             if makes_edges interaction
             then add_edges_from acc (consecutive_pairs (atoms interaction))
             else acc) l g) =
   edge_set g \<union> {{u, v} | u v i. i \<in> set l \<and> makes_edges i \<and> (u, v) \<in> set (consecutive_pairs (atoms i))}"
proof (induction l arbitrary: g)
  case Nil
  show ?case by simp
next
  case (Cons i l)
  show ?case
    by (auto simp: Cons.IH edge_set_add_edges_from)
qed

lemma fold_interaction_interactions:
  "interactions (fold (\<lambda>interaction acc.
             if makes_edges interaction
             then add_edges_from acc (consecutive_pairs (atoms interaction))
             else acc) l g) = interactions g"
  by (induction l arbitrary: g) (simp_all add: interactions_add_edges_from)

lemma edge_set_make_edges_from_interaction_type:
  "edge_set (make_edges_from_interaction_type b itype) =
   edge_set b \<union> {{u, v} | u v i. i \<in> set (interactions_get (interactions b) itype) \<and>
      makes_edges i \<and> (u, v) \<in> set (consecutive_pairs (atoms i))}"
  by (simp add: make_edges_from_interaction_type_def fold_interaction_edges)

lemma interactions_make_edges_from_interaction_type:
  "interactions (make_edges_from_interaction_type b itype) = interactions b"
  by (simp add: make_edges_from_interaction_type_def fold_interaction_interactions)

lemma fold_types_edges:
  "edge_set (fold (\<lambda>itype acc. make_edges_from_interaction_type acc itype) ts b) =
     edge_set b \<union> {{u, v} | u v itype i. itype \<in> set ts \<and>
        i \<in> set (interactions_get (interactions b) itype) \<and>
        makes_edges i \<and> (u, v) \<in> set (consecutive_pairs (atoms i))} \<and>
   interactions (fold (\<lambda>itype acc. make_edges_from_interaction_type acc itype) ts b) =
     interactions b"
proof (induction ts arbitrary: b)
  case Nil
  show ?case by simp
next
  case (Cons t ts)
  show ?case
    by (auto simp: Cons.IH edge_set_make_edges_from_interaction_type
        interactions_make_edges_from_interaction_type)
qed

text \<open>
  C8, as the code has it. \<open>make_edges_from_interactions\<close> only adds edges: afterwards
  the edges of the block are the edges it had before, together with the pairs of
  consecutive atoms of every interaction of a known type whose metadata does not set
  \<open>edge\<close> to a false value. An interaction with \<open>edge\<close> false and an interaction of
  another type give no edge of their own. For a block that had no edge before, the edge
  set is exactly that union.
\<close>

theorem make_edges_from_interactions_edges:
  "edge_set (make_edges_from_interactions b) =
     edge_set b \<union> {{u, v} | u v itype i. itype \<in> set known_types \<and>
        i \<in> set (interactions_get (interactions b) itype) \<and>
        makes_edges i \<and> (u, v) \<in> set (consecutive_pairs (atoms i))}"
  by (simp add: make_edges_from_interactions_def fold_types_edges)

text \<open>
  The claim as the spec states it fails on a block that already has an edge: \<open>block_e\<close>
  has no interaction at all, so the union is empty, and it keeps its edge.
\<close>

theorem make_edges_keeps_edges_counterexample:
  "interactions block_e = [] \<and>
   edges (make_edges_from_interactions block_e) = [(''BB'', ''SC1'')]"
  by (simp add: block_e_def make_edges_from_interactions_def known_types_def
      make_edges_from_interaction_type_def interactions_get_def)

lemma make_edges_block_i:
  "edges (make_edges_from_interactions block_i) = [(''A'', ''B''), (''B'', ''C'')]"
  by (simp add: block_i_def make_edges_from_interactions_def known_types_def
      make_edges_from_interaction_type_def interactions_get_def makes_edges_def
      dict_get_default_def add_edges_from_def add_edge_def has_node_def has_edge_def
      consecutive_pairs_def)

subsection \<open>The order of the matches\<close>










subsection \<open>Exact covers\<close>















subsection \<open>Renumbering in \<open>merge_molecule\<close>\<close>

lemma map_fst_new_ids: "map fst (new_ids idx ks) = ks"
  by (induction ks arbitrary: idx) auto

lemma snd_new_ids_ge: "(k, j) \<in> set (new_ids idx ks) \<Longrightarrow> idx \<le> j"
  by (induction ks arbitrary: idx) force+

lemma nodes_add_node_fresh:
  assumes "n \<notin> fst ` set (nodes g)"
  shows "nodes (add_node g n attr) = nodes g @ [(n, dict_update [] attr)]"
proof -
  from assms have "map_of (nodes g) n = None" by (simp add: map_of_eq_None_iff)
  then show ?thesis by (simp add: add_node_def)
qed

lemma add_node_fields:
  "edges (add_node g n attr) = edges g" "interactions (add_node g n attr) = interactions g"
  by (auto simp: add_node_def split: option.splits)

lemma dom_new_ids: "dom (map_of (new_ids idx ks)) = set ks"
proof -
  have "dom (map_of (new_ids idx ks)) = fst ` set (new_ids idx ks)"
    by (rule dom_map_of_conv_image_fst)
  also have "\<dots> = set (map fst (new_ids idx ks))" by simp
  finally show ?thesis by (simp only: map_fst_new_ids)
qed

lemma merge_nodes_result:
  "merge_nodes self idx ro oc ns c = (self', Inr c') \<Longrightarrow>
   \<forall>n \<in> fst ` set (nodes self). n < idx \<Longrightarrow>
   distinct (map fst ns) \<Longrightarrow>
   map fst (nodes self') = map fst (nodes self) @ map snd (new_ids idx (map fst ns)) \<and>
   map_of c' = map_of c ++ map_of (new_ids idx (map fst ns)) \<and>
   edges self' = edges self \<and> interactions self' = interactions self"
proof (induction ns arbitrary: self idx c)
  case Nil
  then show ?case by simp
next
  case (Cons na ns)
  obtain node attr where na: "na = (node, attr)" by (cases na)
  from Cons.prems(1) obtain attr' where
    rest: "merge_nodes (add_node self idx attr') (idx + 1) ro oc ns (AList.update node idx c) = (self', Inr c')"
    by (auto simp: na split: option.splits sum.splits)
  from Cons.prems(2) have fresh: "idx \<notin> fst ` set (nodes self)" by auto
  have nodes1: "nodes (add_node self idx attr') = nodes self @ [(idx, dict_update [] attr')]"
    by (rule nodes_add_node_fresh [OF fresh])
  have small1: "\<forall>n \<in> fst ` set (nodes (add_node self idx attr')). n < idx + 1"
    using Cons.prems(2) by (auto simp: nodes1)
  from Cons.prems(3) have dist1: "distinct (map fst ns)" and notin: "node \<notin> set (map fst ns)"
    by (auto simp: na)
  note IH = Cons.IH [OF rest small1 dist1]
  have "map fst (nodes self') = map fst (nodes self) @ map snd (new_ids idx (map fst (na # ns)))"
    using IH by (simp add: nodes1 na)
  moreover have "map_of c' = map_of c ++ map_of (new_ids idx (map fst (na # ns)))"
  proof -
    have "node \<notin> dom (map_of (new_ids (idx + 1) (map fst ns)))"
      unfolding dom_new_ids by (rule notin)
    then have "(map_of c)(node \<mapsto> idx) ++ map_of (new_ids (idx + 1) (map fst ns)) =
        (map_of c ++ map_of (new_ids (idx + 1) (map fst ns)))(node \<mapsto> idx)"
      by (rule map_add_upd_left)
    also have "\<dots> = map_of c ++ (map_of (new_ids (idx + 1) (map fst ns)))(node \<mapsto> idx)"
      by (simp only: map_add_upd)
    also have "(map_of (new_ids (idx + 1) (map fst ns)))(node \<mapsto> idx) =
        map_of (new_ids idx (map fst (na # ns)))"
      by (simp add: na)
    finally have "(map_of c)(node \<mapsto> idx) ++ map_of (new_ids (idx + 1) (map fst ns)) =
        map_of c ++ map_of (new_ids idx (map fst (na # ns)))" .
    moreover have "map_of (AList.update node idx c) = (map_of c)(node \<mapsto> idx)"
      by (rule update_conv')
    moreover from IH have "map_of c' =
        map_of (AList.update node idx c) ++ map_of (new_ids (idx + 1) (map fst ns))"
      by blast
    ultimately show ?thesis by (simp only:)
  qed
  moreover have "edges self' = edges self" "interactions self' = interactions self"
    using IH by (simp_all add: add_node_fields)
  ultimately show ?case by blast
qed

lemma interactions_get_append:
  "interactions_get (interactions_append ints t x) t' =
     (if t' = t then interactions_get ints t @ [x] else interactions_get ints t')"
proof (cases "map_of ints t")
  case None
  then show ?thesis
    by (auto simp: interactions_get_def interactions_append_def map_add_def split: option.splits)
next
  case (Some l)
  then show ?thesis
    by (simp add: interactions_get_def interactions_append_def update_conv')
qed

lemma add_interaction_result:
  "add_interaction self t atms p m = (self', Inr u) \<Longrightarrow>
   nodes self' = nodes self \<and> edges self' = edges self \<and>
   (\<forall>t'. interactions_get (interactions self') t' =
      (if t' = t
       then interactions_get (interactions self) t @
         [\<lparr>atoms = atms, parameters = p, meta = (case m of None \<Rightarrow> [] | Some d \<Rightarrow> d)\<rparr>]
       else interactions_get (interactions self) t'))"
  by (auto simp: add_interaction_def Let_def interactions_get_append split: if_splits)

lemma merge_interaction_list_result:
  "merge_interaction_list self c nm l = (self', Inr u) \<Longrightarrow>
   nodes self' = nodes self \<and> edges self' = edges self \<and>
   (\<forall>t x. x \<in> set (interactions_get (interactions self) t) \<longrightarrow>
      x \<in> set (interactions_get (interactions self') t)) \<and>
   (\<forall>i \<in> set l. \<exists>atms. lookup_all c (atoms i) = Inr atms \<and>
      \<lparr>atoms = atms, parameters = parameters i, meta = meta i\<rparr>
        \<in> set (interactions_get (interactions self') nm))"
proof (induction l arbitrary: self)
  case Nil
  then show ?case by simp
next
  case (Cons i l)
  from Cons.prems obtain atms self1 u1 where
    look: "lookup_all c (atoms i) = Inr atms" and
    add: "add_interaction self nm atms (parameters i) (Some (meta i)) = (self1, Inr u1)" and
    rest: "merge_interaction_list self1 c nm l = (self', Inr u)"
    by (auto split: sum.splits prod.splits)
  note A = add_interaction_result [OF add]
  note IH = Cons.IH [OF rest]
  have grow1: "x \<in> set (interactions_get (interactions self1) t)"
    if "x \<in> set (interactions_get (interactions self) t)" for t x
    using that A by auto
  have new1: "\<lparr>atoms = atms, parameters = parameters i, meta = meta i\<rparr>
      \<in> set (interactions_get (interactions self1) nm)"
    using A by simp
  have "nodes self' = nodes self" "edges self' = edges self"
    using A IH by simp_all
  moreover have "\<forall>t x. x \<in> set (interactions_get (interactions self) t) \<longrightarrow>
      x \<in> set (interactions_get (interactions self') t)"
    using grow1 IH by blast
  moreover have "\<forall>j \<in> set (i # l). \<exists>atms. lookup_all c (atoms j) = Inr atms \<and>
      \<lparr>atoms = atms, parameters = parameters j, meta = meta j\<rparr>
        \<in> set (interactions_get (interactions self') nm)"
    using look new1 IH by auto
  ultimately show ?case by blast
qed

lemma merge_interactions_result:
  "merge_interactions self c ints = (self', Inr u) \<Longrightarrow>
   nodes self' = nodes self \<and> edges self' = edges self \<and>
   (\<forall>t x. x \<in> set (interactions_get (interactions self) t) \<longrightarrow>
      x \<in> set (interactions_get (interactions self') t)) \<and>
   (\<forall>(nm, l) \<in> set ints. \<forall>i \<in> set l. \<exists>atms. lookup_all c (atoms i) = Inr atms \<and>
      \<lparr>atoms = atms, parameters = parameters i, meta = meta i\<rparr>
        \<in> set (interactions_get (interactions self') nm))"
proof (induction ints arbitrary: self)
  case Nil
  then show ?case by simp
next
  case (Cons p ints)
  obtain nm l where p: "p = (nm, l)" by (cases p)
  from Cons.prems obtain self1 u1 where
    first: "merge_interaction_list self c nm l = (self1, Inr u1)" and
    rest: "merge_interactions self1 c ints = (self', Inr u)"
    by (auto simp: p split: sum.splits prod.splits)
  note A = merge_interaction_list_result [OF first]
  note IH = Cons.IH [OF rest]
  have "nodes self' = nodes self" "edges self' = edges self"
    using A IH by simp_all
  moreover have "\<forall>t x. x \<in> set (interactions_get (interactions self) t) \<longrightarrow>
      x \<in> set (interactions_get (interactions self') t)"
    using A IH by blast
  moreover have "\<forall>i \<in> set l. \<exists>atms. lookup_all c (atoms i) = Inr atms \<and>
      \<lparr>atoms = atms, parameters = parameters i, meta = meta i\<rparr>
        \<in> set (interactions_get (interactions self') nm)"
    using A IH by blast
  moreover have "\<forall>(nm, l) \<in> set ints. \<forall>i \<in> set l. \<exists>atms. lookup_all c (atoms i) = Inr atms \<and>
      \<lparr>atoms = atms, parameters = parameters i, meta = meta i\<rparr>
        \<in> set (interactions_get (interactions self') nm)"
    using IH by blast
  ultimately show ?case by (simp add: p)
qed

lemma lookup_all_list_all2:
  "lookup_all c as = Inr bs \<Longrightarrow> list_all2 (\<lambda>a b. map_of c a = Some b) as bs"
  by (induction as arbitrary: bs) (auto split: option.splits sum.splits)

lemma nodes_add_edge_present:
  "has_node g u \<Longrightarrow> has_node g v \<Longrightarrow> nodes (add_edge g u v) = nodes g"
  by (simp add: add_edge_def Let_def)

lemma has_edge_add_edge: "has_edge (add_edge g u v) u v"
  by (auto simp: has_edge_def edges_add_edge)

lemma edges_add_edge_subset: "set (edges g) \<subseteq> set (edges (add_edge g u v))"
  by (auto simp: edges_add_edge)

lemma merge_edges_result:
  "merge_edges self c es = (self', Inr w) \<Longrightarrow>
   ran (map_of c) \<subseteq> fst ` set (nodes self) \<Longrightarrow>
   nodes self' = nodes self \<and> interactions self' = interactions self \<and>
   set (edges self) \<subseteq> set (edges self') \<and>
   (\<forall>(u, v) \<in> set es. \<exists>u' v'. map_of c u = Some u' \<and> map_of c v = Some v' \<and>
      has_edge self' u' v')"
proof (induction es arbitrary: self)
  case Nil
  then show ?case by simp
next
  case (Cons e es)
  obtain u v where e: "e = (u, v)" by (cases e)
  from Cons.prems(1) obtain u' v' where
    u': "map_of c u = Some u'" and v': "map_of c v = Some v'" and
    rest: "merge_edges (add_edge self u' v') c es = (self', Inr w)"
    by (auto simp: e split: option.splits)
  from u' v' Cons.prems(2) have present: "has_node self u'" "has_node self v'"
    by (auto simp: has_node_def ran_def)
  have nodes1: "nodes (add_edge self u' v') = nodes self"
    by (rule nodes_add_edge_present [OF present])
  have ran1: "ran (map_of c) \<subseteq> fst ` set (nodes (add_edge self u' v'))"
    using Cons.prems(2) by (simp only: nodes1)
  note IH = Cons.IH [OF rest ran1]
  have sub: "set (edges (add_edge self u' v')) \<subseteq> set (edges self')"
    using IH by blast
  have "has_edge self' u' v'"
    using has_edge_add_edge [of self u' v'] sub by (auto simp: has_edge_def)
  then have "\<exists>a b. map_of c u = Some a \<and> map_of c v = Some b \<and> has_edge self' a b"
    using u' v' by blast
  moreover have "nodes self' = nodes self" using IH nodes1 by simp
  moreover have "interactions self' = interactions self"
    using IH by (simp add: interactions_add_edge)
  moreover have "set (edges self) \<subseteq> set (edges self')"
    using sub edges_add_edge_subset [of self u' v'] by blast
  moreover have "\<forall>(u, v) \<in> set es. \<exists>u' v'. map_of c u = Some u' \<and> map_of c v = Some v' \<and>
      has_edge self' u' v'"
    using IH by blast
  ultimately show ?case by (simp add: e)
qed

lemma py_max_Max: "xs \<noteq> [] \<Longrightarrow> py_max xs = Inr (Max (set xs))"
proof (cases xs)
  case Nil
  assume "xs \<noteq> []"
  with Nil show ?thesis by simp
next
  case (Cons a list)
  have "fold max list a = Max (set (a # list))" by (rule Max.set_eq_fold [symmetric])
  then show ?thesis by (simp only: Cons py_max.simps)
qed

lemma new_ids_shift:
  "new_ids idx (map (\<lambda>k. base + int k) [0..<n]) =
     map (\<lambda>u. (u, u + (idx - base))) (map (\<lambda>k. base + int k) [0..<n])"
proof (induction n arbitrary: idx base)
  case 0
  show ?case by simp
next
  case (Suc n)
  have "map (\<lambda>k. base + int k) [0..<Suc n] = base # map (\<lambda>k. (base + 1) + int k) [0..<n]"
    by (simp add: upt_rec [of 0] map_Suc_upt [symmetric] del: upt_Suc)
  then show ?case using Suc.IH [of "idx + 1" "base + 1"] by simp
qed

lemma merge_offsets_offset:
  assumes "merge_offsets self = Inr (offset, ro, oc)"
  shows "offset = merge_offset self" and "\<forall>n \<in> fst ` set (nodes self). n < offset"
proof -
  show "offset = merge_offset self"
  proof (cases "nodes self = []")
    case True
    with assms show ?thesis by (simp add: merge_offsets_def merge_offset_def)
  next
    case False
    then have "py_max (map fst (nodes self)) = Inr (Max (set (map fst (nodes self))))"
      by (simp add: py_max_Max)
    with assms False show ?thesis
      by (auto simp: merge_offsets_def merge_offset_def split: option.splits sum.splits)
  qed
  then show "\<forall>n \<in> fst ` set (nodes self). n < offset"
    by (auto simp: merge_offset_def intro!: le_imp_less_Suc Max_ge [THEN order_le_less_trans])
qed

lemma length_new_ids: "length (new_ids idx ks) = length ks"
  by (induction ks arbitrary: idx) auto

lemma ran_map_of_subset_snd: "ran (map_of xs) \<subseteq> snd ` set xs"
  by (auto simp: ran_def dest!: map_of_SomeD intro: rev_image_eqI)

text \<open>
  C2, as the code has it. Let the merge of \<open>other\<close> into \<open>self\<close> return. Then the merged
  molecule has as many nodes as the two molecules together, and every interaction and
  every edge of \<open>other\<close> is in it with its atoms renumbered: the k-th node of \<open>other\<close>, in
  the order of its nodes, has the id \<open>max(self) + 1 + k\<close>. When the ids of \<open>other\<close> are
  0, 1, 2, ... in this order, this is a shift of every id by \<open>max(self) + 1\<close>.
\<close>

theorem merge_molecule_renumbers:
  "distinct (map fst (nodes other)) \<Longrightarrow> merge_molecule self other = (merged, Inr r) \<Longrightarrow>
   length (nodes merged) = length (nodes self) + length (nodes other) \<and>
   (\<forall>(t, l) \<in> set (interactions other). \<forall>i \<in> set l. \<exists>atms.
      list_all2 (\<lambda>a b. map_of (new_ids (merge_offset self) (map fst (nodes other))) a = Some b)
        (atoms i) atms \<and>
      \<lparr>atoms = atms, parameters = parameters i, meta = meta i\<rparr>
        \<in> set (interactions_get (interactions merged) t)) \<and>
   (\<forall>(u, v) \<in> set (edges other). \<exists>u' v'.
      map_of (new_ids (merge_offset self) (map fst (nodes other))) u = Some u' \<and>
      map_of (new_ids (merge_offset self) (map fst (nodes other))) v = Some v' \<and>
      has_edge merged u' v') \<and>
   (map fst (nodes other) = map int [0..<length (nodes other)] \<longrightarrow>
      new_ids (merge_offset self) (map fst (nodes other)) =
        map (\<lambda>u. (u, u + merge_offset self)) (map fst (nodes other)))"
proof -
  assume dist: "distinct (map fst (nodes other))"
    and run: "merge_molecule self other = (merged, Inr r)"
  let ?keys = "map fst (nodes other)"
  from run obtain offset ro oc self1 corr self2 w1 w2 where
    off: "merge_offsets self = Inr (offset, ro, oc)" and
    n: "merge_nodes self offset ro oc (nodes other) [] = (self1, Inr corr)" and
    i: "merge_interactions self1 corr (interactions other) = (self2, Inr w1)" and
    e: "merge_edges self2 corr (edges other) = (merged, Inr w2)"
    by (auto simp: merge_molecule_def split: if_splits sum.splits prod.splits)
  note O = merge_offsets_offset [OF off]
  note N = merge_nodes_result [OF n O(2) dist]
  note I = merge_interactions_result [OF i]
  have corr: "map_of corr = map_of (new_ids (merge_offset self) ?keys)"
    using N O(1) by simp
  have "ran (map_of corr) \<subseteq> snd ` set (new_ids (merge_offset self) ?keys)"
    unfolding corr by (rule ran_map_of_subset_snd)
  also have "\<dots> \<subseteq> set (map fst (nodes self1))"
    using N O(1) by auto
  also have "\<dots> = fst ` set (nodes self2)" using I by simp
  finally have ran: "ran (map_of corr) \<subseteq> fst ` set (nodes self2)" .
  note E = merge_edges_result [OF e ran]
  have "length (nodes merged) = length (map fst (nodes self1))"
    using E I by simp
  also have "\<dots> = length (nodes self) + length (nodes other)"
    using N by (simp add: length_new_ids)
  finally have count: "length (nodes merged) = length (nodes self) + length (nodes other)" .
  have ints: "\<exists>atms.
      list_all2 (\<lambda>a b. map_of (new_ids (merge_offset self) ?keys) a = Some b) (atoms i) atms \<and>
      \<lparr>atoms = atms, parameters = parameters i, meta = meta i\<rparr>
        \<in> set (interactions_get (interactions merged) t)"
    if "(t, l) \<in> set (interactions other)" "i \<in> set l" for t l i
  proof -
    from I that obtain atms where
      look: "lookup_all corr (atoms i) = Inr atms" and
      mem: "\<lparr>atoms = atms, parameters = parameters i, meta = meta i\<rparr>
        \<in> set (interactions_get (interactions self2) t)"
      by blast
    from lookup_all_list_all2 [OF look]
    have "list_all2 (\<lambda>a b. map_of (new_ids (merge_offset self) ?keys) a = Some b) (atoms i) atms"
      by (simp only: corr)
    moreover from E have "interactions merged = interactions self2" by blast
    ultimately show ?thesis using mem by auto
  qed
  have edgs: "\<exists>u' v'.
      map_of (new_ids (merge_offset self) ?keys) u = Some u' \<and>
      map_of (new_ids (merge_offset self) ?keys) v = Some v' \<and> has_edge merged u' v'"
    if "(u, v) \<in> set (edges other)" for u v
    using E that unfolding corr by blast
  have shift: "new_ids (merge_offset self) ?keys = map (\<lambda>u. (u, u + merge_offset self)) ?keys"
    if "?keys = map int [0..<length (nodes other)]"
    using new_ids_shift [of "merge_offset self" 0 "length (nodes other)"] that by simp
  from count ints edgs shift show ?thesis by blast
qed

lemma merge_molecule_value_d:
  "merge_molecule mol_a mol_d =
     (\<lparr>nodes = [(0, [(''atomname'', VStr ''BB''), (''resid'', VInt 1)]),
                (1, [(''atomname'', VStr ''SC1''), (''resid'', VInt 3), (''charge_group'', VInt 0)]),
                (2, [(''atomname'', VStr ''SC2''), (''resid'', VInt 3), (''charge_group'', VInt 0)])],
       edges = [(1, 2)],
       interactions = [(''bonds'', [\<lparr>atoms = [1, 2], parameters = VList [], meta = []\<rparr>])],
       mol_meta = [], force_field = Some 0, nrexcl = Some 1\<rparr>, Inr None)"
  by (simp add: merge_molecule_def mol_a_def mol_d_def merge_offsets_def add_node_def
      add_edge_def add_interaction_def has_node_def has_edge_def dict_update_def
      interactions_append_def dict_get_default_def)

theorem merge_molecule_renumbers_witness:
  "distinct (map fst (nodes mol_d)) \<and>
   snd (merge_molecule mol_a mol_d) = Inr None \<and>
   length (nodes (fst (merge_molecule mol_a mol_d))) = length (nodes mol_a) + length (nodes mol_d) \<and>
   map fst (nodes mol_d) = map int [0..<length (nodes mol_d)] \<and>
   new_ids (merge_offset mol_a) (map fst (nodes mol_d)) =
     map (\<lambda>u. (u, u + merge_offset mol_a)) (map fst (nodes mol_d)) \<and>
   has_edge (fst (merge_molecule mol_a mol_d)) 1 2"
proof -
  have d: "distinct (map fst (nodes mol_d))" by (simp add: mol_d_def)
  have run: "merge_molecule mol_a mol_d = (fst (merge_molecule mol_a mol_d), Inr None)"
    by (simp add: merge_molecule_value_d)
  have keys: "map fst (nodes mol_d) = map int [0..<length (nodes mol_d)]"
    by (simp add: mol_d_def upt_rec)
  have edge: "has_edge (fst (merge_molecule mol_a mol_d)) 1 2"
    by (simp add: merge_molecule_value_d has_edge_def)
  have ret: "snd (merge_molecule mol_a mol_d) = Inr None"
    by (simp add: merge_molecule_value_d)
  from merge_molecule_renumbers [OF d run] d keys edge ret show ?thesis by blast
qed

text \<open>
  The claim as the spec states it shifts every id of the second molecule by
  \<open>max(M1 ids) + 1\<close>. \<open>mol_b\<close> has the nodes 5 and 7 and the edge between them; \<open>mol_a\<close> has
  the node 0, so that the shift is by 1. The merge returns, and the merged molecule has
  the edge between 1 and 2, not between 6 and 8.
\<close>

theorem merge_molecule_shift_counterexample:
  "snd (merge_molecule mol_a mol_b) = Inr None \<and>
   merge_offset mol_a = 1 \<and>
   (5, 7) \<in> set (edges mol_b) \<and>
   edges (fst (merge_molecule mol_a mol_b)) = [(1, 2)] \<and>
   \<not> has_edge (fst (merge_molecule mol_a mol_b)) (5 + merge_offset mol_a) (7 + merge_offset mol_a)"
proof -
  have off: "merge_offset mol_a = 1" by (simp add: merge_offset_def mol_a_def)
  have edge: "(5, 7) \<in> set (edges mol_b)" by (simp add: mol_b_def)
  have ret: "snd (merge_molecule mol_a mol_b) = Inr None" by (simp add: merge_molecule_value)
  have merged: "edges (fst (merge_molecule mol_a mol_b)) = [(1, 2)]"
    by (simp add: merge_molecule_value)
  have "\<not> has_edge (fst (merge_molecule mol_a mol_b)) (5 + merge_offset mol_a) (7 + merge_offset mol_a)"
    by (simp add: has_edge_def merged off)
  with off edge ret merged show ?thesis by blast
qed

subsection \<open>Particles without an atom name\<close>

lemma adjacency_get_string:
  "adjacency_get g n (Inr key) dflt = dflt"
proof -
  have "map_of (map (\<lambda>(v, d). (Inl v :: int + string, d)) xs) (Inr key) = None"
    for xs :: "(int \<times> attrs) list"
    by (induction xs) auto
  then show ?thesis by (simp add: adjacency_get_def)
qed

lemma set_node_attributes_queue:
  "set_node_attributes mol refs keep out_to_mol graph_out to_remove = Inr (g, queued) \<Longrightarrow>
   queued = to_remove"
proof (induction out_to_mol arbitrary: graph_out)
  case Nil
  then show ?case by simp
next
  case (Cons ow rest)
  obtain out_idx weights where ow: "ow = (out_idx, weights)" by (cases ow)
  from Cons.prems obtain g2 where
    "set_node_attributes mol refs keep rest g2 to_remove = Inr (g, queued)"
    by (auto simp: ow Let_def adjacency_get_string split: sum.splits)
  then show ?case by (rule Cons.IH)
qed

text \<open>
  C4 (the code at the failing input). The source atom has no atom name and \<open>atomname\<close> is
  among the attributes to keep, so that the loop over \<open>out_to_mol\<close> sets the atom name of
  the output particle 0 to \<open>None\<close>. The particle is not queued and is still in the
  molecule that is returned: the test reads the adjacency of the particle, where
  no key is the string \<open>atomname\<close>, and gets the default, the empty string. The force
  field of the returned molecule is the target force field.
\<close>

theorem do_mapping_keeps_unnamed_particle:
  "do_mapping_finish mol_src graph_out_merged [(0, [(0, VInt 1)])] [] [''atomname''] =
     Inr \<lparr>nodes = [(0, [(''PTM_atom'', VInt 1), (''atomname'', VNone),
                        (''graph'', VGraph [0]),
                        (''mapping_weights'', VDict [(VInt 0, VInt 1)]),
                        (''chain'', VStr ''A'')])],
          edges = [], interactions = [],
          mol_meta = [], force_field = Some 1, nrexcl = None\<rparr>"
  by (simp add: do_mapping_finish_def mol_src_def graph_out_merged_def update_node_def
      dict_update_def attrs_from_node_def append_value_def adjacency_get_string
      remove_nodes_from_def)

end
